theory Spec2Isabelle
  imports Main "HOL-Library.Word"
begin

section \<open>Data model of drive/list.go\<close>

text \<open>
  Go's \<open>int64\<close> is a 64-bit word read as two's complement; \<open>int\<close> is taken to be 64 bits
  wide as well (amd64, arm64), so the conversions \<open>int(args.maxFiles)\<close> and
  \<open>int(args.NameWidth)\<close> change nothing. A \<open>rune\<close> is a 32-bit code point.
\<close>

type_synonym int64 = "64 word"
type_synonym rune = "32 word"

text \<open>
  The fields of \<open>drive.File\<close> that \<open>List\<close> requests from the service; its field \<open>Id\<close> is
  \<open>FileId\<close> here. A \<open>*drive.File\<close> is an address into a heap of such records: \<open>List\<close>
  assigns to \<open>f.Name\<close> through the pointer.
\<close>

record File =
  FileId :: string
  Name :: string
  Md5Checksum :: string
  MimeType :: string
  Size :: int64
  CreatedTime :: string
  Parents :: "string list"
  HeadRevisionId :: string

type_synonym ptr = nat
type_synonym heap = "ptr \<Rightarrow> File"

text \<open>
  Go compares error values by identity. \<open>controlledStop\<close> is the value that line 88 builds
  anew inside every call of \<open>listAllFiles\<close>, so no collaborator can return that very value;
  every other error is an \<open>errorString\<close> holding its message, and the failures of the
  collaborators (the remote service, the pathfinder) are given by their messages.
\<close>

datatype error = controlledStop | errorString string

fun Error :: "error \<Rightarrow> string" where
  "Error controlledStop = ''Controlled stop''"
| "Error (errorString s) = s"

definition Errorf :: "string \<Rightarrow> error \<Rightarrow> error" where
  \<comment> \<open>\<open>fmt.Errorf(prefix + "%s", err)\<close>: a new error whose message ends with that of \<open>err\<close>\<close>
  "Errorf prefix err = errorString (prefix @ Error err)"

subsection \<open>The remote listing service\<close>

text \<open>
  The call that line 90 builds: query, field selection, sort order and page size. Every
  fetch of the pagination sends these same parameters.
\<close>

record FilesListCall =
  Q :: string
  Fields :: "string list"
  OrderBy :: string
  PageSize :: int64

text \<open>
  What the service answers to a call, fetch after fetch: a fetch fails with a message, or
  returns a page of records; a page with an empty \<open>NextPageToken\<close> is the last one. The
  service is free in how many records it puts on a page.
\<close>

datatype pages = Fails string | Last "ptr list" | More "ptr list" pages

text \<open>
  \<open>FilesListCall.Pages\<close> of the API client: fetch, hand the page to the callback, stop at
  the first error of either, or after the last page. The callback's captured variables
  are the state \<open>s\<close>.
\<close>

fun Pages :: "pages \<Rightarrow> (ptr list \<Rightarrow> 's \<Rightarrow> error option \<times> 's) \<Rightarrow> 's \<Rightarrow> error option \<times> 's" where
  "Pages (Fails m) f s = (Some (errorString m), s)"
| "Pages (Last fl) f s = f fl s"
| "Pages (More fl rest) f s =
     (case f fl s of
        (Some err, s') \<Rightarrow> (Some err, s')
      | (None, s') \<Rightarrow> Pages rest f s')"

text \<open>All records of a listing, in fetch order, up to its end or its failing fetch.\<close>

fun available :: "pages \<Rightarrow> ptr list" where
  "available (Fails m) = []"
| "available (Last fl) = fl"
| "available (More fl rest) = fl @ available rest"

text \<open>Whether every fetch of a listing succeeds, and the message of the failing one.\<close>

fun exhaustible :: "pages \<Rightarrow> bool" where
  "exhaustible (Fails m) = False"
| "exhaustible (Last fl) = True"
| "exhaustible (More fl rest) = exhaustible rest"

fun failure :: "pages \<Rightarrow> string option" where
  "failure (Fails m) = Some m"
| "failure (Last fl) = None"
| "failure (More fl rest) = failure rest"

text \<open>
  The receiver \<open>*Drive\<close>: its listing service, and the \<open>absPath\<close> operation of the
  pathfinder it creates, which returns a path and possibly the message of a failure.
\<close>

record Drive =
  service :: "FilesListCall \<Rightarrow> pages"
  absPath :: "File \<Rightarrow> string \<times> string option"

section \<open>listAllFiles\<close>

text \<open>The field \<open>fields\<close> of \<open>listAllFilesArgs\<close> is \<open>fields'\<close> here.\<close>

record listAllFilesArgs =
  query :: string
  fields' :: "string list"
  sortOrder :: string
  maxFiles :: int64

definition pageSize :: "listAllFilesArgs \<Rightarrow> int64" where
  \<comment> \<open>lines 81 to 86\<close>
  "pageSize args =
     (if 0 <s maxFiles args \<and> maxFiles args <s 1000 then maxFiles args else 1000)"

definition listCall :: "listAllFilesArgs \<Rightarrow> FilesListCall" where
  \<comment> \<open>the call built on line 90\<close>
  "listCall args =
     \<lparr>Q = query args, Fields = fields' args, OrderBy = sortOrder args, PageSize = pageSize args\<rparr>"

definition listAllFiles_func1 :: "listAllFilesArgs \<Rightarrow> ptr list \<Rightarrow> ptr list \<Rightarrow> error option \<times> ptr list" where
  \<comment> \<open>the callback of lines 90 to 99; \<open>files\<close> is the variable it captures\<close>
  "listAllFiles_func1 args fl files =
     (let files' = files @ fl in
      if 0 <s maxFiles args \<and> sint (maxFiles args) \<le> int (length files')
      then (Some controlledStop, files')
      else (None, files'))"

definition listPages :: "Drive \<Rightarrow> listAllFilesArgs \<Rightarrow> error option \<times> ptr list" where
  \<comment> \<open>the pagination of line 90, started with \<open>files\<close> empty\<close>
  "listPages self args = Pages (service self (listCall args)) (listAllFiles_func1 args) []"

definition listAllFiles :: "Drive \<Rightarrow> listAllFilesArgs \<Rightarrow> ptr list \<times> error option" where
  \<comment> \<open>lines 101 to 110; \<open>sint\<close> is the conversion \<open>int(args.maxFiles)\<close>\<close>
  "listAllFiles self args =
     (case listPages self args of
        (err, files) \<Rightarrow>
          if err \<noteq> None \<and> err \<noteq> Some controlledStop then ([], err)
          else if 0 <s maxFiles args then
            (let n = min (int (length files)) (sint (maxFiles args)) in (take (nat n) files, None))
          else (files, None))"

section \<open>Output\<close>

text \<open>
  An \<open>io.Writer\<close> is a handle: \<open>os.Stdout\<close>, or some other writer. What has been written is
  kept per handle, so a caller that passes \<open>os.Stdout\<close> itself as \<open>Out\<close> is covered. A sink
  holds, in order, what the library writer that wraps it has accepted: a record accepted
  by a \<open>csv.Writer\<close>, with that writer's \<open>Comma\<close>, or the bytes of one print to a
  \<open>tabwriter.Writer\<close>. A failure of the sink itself is not part of this file.
\<close>

datatype writer = Stdout | Writer nat

datatype row = CsvRecord rune "string list" | Tabbed string

type_synonym sinks = "writer \<Rightarrow> row list"

subsection \<open>The csv writer\<close>

text \<open>
  \<open>csv.Writer.Write\<close> refuses every record while \<open>Comma\<close> is not a valid delimiter: it
  returns an error and writes nothing. A delimiter is valid when it is a valid rune other
  than NUL, the double quote, carriage return, line feed and U+FFFD. With a valid
  delimiter the writer separates the fields by it and quotes a field that holds it, so
  the record is kept as the list of its fields. \<open>WriteAll\<close> stops at the first error.
\<close>

definition ValidRune :: "rune \<Rightarrow> bool" where
  \<comment> \<open>\<open>utf8.ValidRune\<close>: a code point up to U+10FFFF that is no surrogate\<close>
  "ValidRune r = ((0 \<le>s r \<and> r <s 0xD800) \<or> (0xDFFF <s r \<and> r \<le>s 0x10FFFF))"

definition validDelim :: "rune \<Rightarrow> bool" where
  "validDelim r =
     (r \<noteq> 0 \<and> r \<noteq> of_char CHR 0x22 \<and> r \<noteq> of_char CHR 0x0D \<and> r \<noteq> of_char CHR 0x0A
      \<and> ValidRune r \<and> r \<noteq> 0xFFFD)"

definition errInvalidDelim :: error where
  "errInvalidDelim = errorString ''csv: invalid field or comment delimiter''"

record csvWriter =
  dest :: writer
  Comma :: rune

definition NewWriter :: "writer \<Rightarrow> csvWriter" where
  \<comment> \<open>\<open>csv.NewWriter\<close>: the delimiter starts as a comma\<close>
  "NewWriter out = \<lparr>dest = out, Comma = of_char CHR '',''\<rparr>"

definition csvWrite :: "csvWriter \<Rightarrow> string list \<Rightarrow> sinks \<Rightarrow> error option \<times> sinks" where
  \<comment> \<open>\<open>w.Write(record)\<close>\<close>
  "csvWrite w record s =
     (if \<not> validDelim (Comma w) then (Some errInvalidDelim, s)
      else (None, s(dest w := s (dest w) @ [CsvRecord (Comma w) record])))"

fun csvWriteAll :: "csvWriter \<Rightarrow> string list list \<Rightarrow> sinks \<Rightarrow> error option \<times> sinks" where
  \<comment> \<open>\<open>w.WriteAll(records)\<close>: one \<open>Write\<close> per record, in order, up to the first error\<close>
  "csvWriteAll w [] s = (None, s)"
| "csvWriteAll w (record # records) s =
     (case csvWrite w record s of
        (Some err, s') \<Rightarrow> (Some err, s')
      | (None, s') \<Rightarrow> csvWriteAll w records s')"

subsection \<open>The tabwriter\<close>

text \<open>
  A print to the \<open>tabwriter.Writer\<close> that line 163 sets up on \<open>out\<close> hands it bytes.
\<close>

definition tabWrite :: "writer \<Rightarrow> string \<Rightarrow> sinks \<Rightarrow> sinks" where
  "tabWrite out text s = s(out := s out @ [Tabbed text])"

fun tabbedInput :: "row list \<Rightarrow> string" where
  \<comment> \<open>all bytes printed to the tabwriter of a sink\<close>
  "tabbedInput [] = []"
| "tabbedInput (Tabbed text # rows) = text @ tabbedInput rows"
| "tabbedInput (CsvRecord c fs # rows) = tabbedInput rows"

text \<open>
  How \<open>tabwriter.Writer.Write\<close> with flags 0 (line 163) reads its input as lines of cells:
  a tab or a vertical tab ends a cell, a newline or a form feed ends a cell and the line,
  and between two \<open>Escape\<close> bytes (0xFF) no byte is special. The state is: inside an
  escape, the text of the open cell, the cells of the open line, the lines so far.
  \<open>Flush\<close> ends an open cell that has text.
\<close>

type_synonym tabState = "bool \<times> string \<times> string list \<times> string list list"

fun tabwriterStep :: "tabState \<Rightarrow> char \<Rightarrow> tabState" where
  "tabwriterStep (esc, cell, line, lines) ch =
     (if esc then (ch \<noteq> CHR 0xFF, cell @ [ch], line, lines)
      else if ch = CHR 0x09 \<or> ch = CHR 0x0B then (False, [], line @ [cell], lines)
      else if ch = CHR 0x0A \<or> ch = CHR 0x0C then (False, [], [], lines @ [line @ [cell]])
      else (ch = CHR 0xFF, cell @ [ch], line, lines))"

definition tabwriterCells :: "string \<Rightarrow> string list list" where
  "tabwriterCells text =
     (case foldl tabwriterStep (False, [], [], []) text of
        (esc, cell, line, lines) \<Rightarrow>
          if cell \<noteq> [] then lines @ [line @ [cell]]
          else if line \<noteq> [] then lines @ [line]
          else lines)"

definition plain :: "string \<Rightarrow> bool" where
  \<comment> \<open>no byte that the tabwriter treats specially\<close>
  "plain s = list_all (\<lambda>ch. ch \<noteq> CHR 0x09 \<and> ch \<noteq> CHR 0x0B \<and> ch \<noteq> CHR 0x0A \<and> ch \<noteq> CHR 0x0C
                            \<and> ch \<noteq> CHR 0xFF) s"

section \<open>Rendering\<close>

text \<open>
  \<open>truncateString\<close>, \<open>isDir\<close>, \<open>isBinary\<close>, \<open>formatSize\<close> and \<open>formatDatetime\<close> are functions
  of the package that list.go calls and does not define; they are parameters here.
\<close>

record helpers =
  truncateString :: "string \<Rightarrow> int64 \<Rightarrow> string"
  isDir :: "File \<Rightarrow> bool"
  isBinary :: "File \<Rightarrow> bool"
  formatSize :: "int64 \<Rightarrow> bool \<Rightarrow> string"
  formatDatetime :: "string \<Rightarrow> string"

definition filetype :: "helpers \<Rightarrow> File \<Rightarrow> string" where
  "filetype hp f = (if isDir hp f then ''dir'' else if isBinary hp f then ''bin'' else ''doc'')"

record ListFilesArgs =
  Out :: writer
  MaxFiles :: int64
  NameWidth :: int64
  Query :: string
  SortOrder :: string
  SkipHeader :: bool
  SizeInBytes :: bool
  AbsPath :: bool
  UseCsv :: bool
  UseExtended :: bool

record PrintFileListArgs =
  Out :: writer
  Files :: "ptr list"
  NameWidth :: int64
  SkipHeader :: bool
  SizeInBytes :: bool
  Delimiter :: rune
  UseExtended :: bool

definition csvHeaders :: "PrintFileListArgs \<Rightarrow> string list" where
  \<comment> \<open>lines 129 to 133\<close>
  "csvHeaders args =
     (let headers = [''Id'', ''Name'', ''Type'', ''Size'', ''Created''] in
      if PrintFileListArgs.UseExtended args then headers @ [''Checksum'', ''HeadRevisionId'']
      else headers)"

definition csvRecord :: "helpers \<Rightarrow> PrintFileListArgs \<Rightarrow> File \<Rightarrow> string list" where
  \<comment> \<open>lines 142 to 152, the body of the loop\<close>
  "csvRecord hp args f =
     (let record = [FileId f,
                    truncateString hp (Name f) (PrintFileListArgs.NameWidth args),
                    filetype hp f,
                    formatSize hp (Size f) (PrintFileListArgs.SizeInBytes args),
                    formatDatetime hp (CreatedTime f)] in
      if PrintFileListArgs.UseExtended args then record @ [Md5Checksum f, HeadRevisionId f]
      else record)"

definition PrintFileList :: "helpers \<Rightarrow> PrintFileListArgs \<Rightarrow> heap \<Rightarrow> sinks \<Rightarrow> sinks" where
  \<comment> \<open>the errors of \<open>Write\<close> and \<open>WriteAll\<close> are dropped, as lines 135 and 157 do\<close>
  "PrintFileList hp args h s =
     (let w = NewWriter Stdout;
          w = w\<lparr>Comma := Delimiter args\<rparr>;
          s = (if \<not> PrintFileListArgs.SkipHeader args then snd (csvWrite w (csvHeaders args) s)
               else s);
          records = map (\<lambda>f. csvRecord hp args (h f)) (Files args)
      in snd (csvWriteAll w records s))"

definition tabbedValues :: "helpers \<Rightarrow> PrintFileListArgs \<Rightarrow> File \<Rightarrow> string list" where
  \<comment> \<open>the five arguments of the \<open>Fprintf\<close> of lines 170 to 176\<close>
  "tabbedValues hp args f =
     [FileId f,
      truncateString hp (Name f) (PrintFileListArgs.NameWidth args),
      filetype hp f,
      formatSize hp (Size f) (PrintFileListArgs.SizeInBytes args),
      formatDatetime hp (CreatedTime f)]"

fun Sprintf_line :: "string list \<Rightarrow> string" where
  \<comment> \<open>the format of line 170: each value as it is, a tab between two values, a newline last\<close>
  "Sprintf_line [] = [CHR 0x0A]"
| "Sprintf_line [v] = v @ [CHR 0x0A]"
| "Sprintf_line (v # vs) = v @ [CHR 0x09] @ Sprintf_line vs"

definition tabbedLine :: "helpers \<Rightarrow> PrintFileListArgs \<Rightarrow> File \<Rightarrow> string" where
  \<comment> \<open>the bytes that the \<open>Fprintf\<close> of lines 170 to 176 prints\<close>
  "tabbedLine hp args f = Sprintf_line (tabbedValues hp args f)"

definition tabbedHeader :: string where
  \<comment> \<open>the bytes that the \<open>Fprintln\<close> of line 166 prints\<close>
  "tabbedHeader =
     ''Id'' @ [CHR 0x09] @ ''Name'' @ [CHR 0x09] @ ''Type'' @ [CHR 0x09] @ ''Size'' @ [CHR 0x09]
     @ ''Created'' @ [CHR 0x0A]"

fun tabbedLoop :: "helpers \<Rightarrow> PrintFileListArgs \<Rightarrow> heap \<Rightarrow> writer \<Rightarrow> ptr list \<Rightarrow> sinks \<Rightarrow> sinks" where
  \<comment> \<open>the loop of lines 169 to 177\<close>
  "tabbedLoop hp args h w [] s = s"
| "tabbedLoop hp args h w (f # files) s =
     tabbedLoop hp args h w files (tabWrite w (tabbedLine hp args (h f)) s)"

definition PrintTabbedFileList :: "helpers \<Rightarrow> PrintFileListArgs \<Rightarrow> heap \<Rightarrow> sinks \<Rightarrow> sinks" where
  "PrintTabbedFileList hp args h s =
     (let w = PrintFileListArgs.Out args;
          s = (if \<not> PrintFileListArgs.SkipHeader args then tabWrite w tabbedHeader s else s)
      in tabbedLoop hp args h w (Files args) s)"

section \<open>List\<close>

record world =
  files_heap :: heap
  written :: sinks

fun absPathLoop :: "Drive \<Rightarrow> ptr list \<Rightarrow> heap \<Rightarrow> error option \<times> heap" where
  \<comment> \<open>the loop of lines 44 to 49: both results of \<open>absPath\<close> are assigned, then \<open>err\<close> is tested\<close>
  "absPathLoop self [] h = (None, h)"
| "absPathLoop self (f # files) h =
     (case absPath self (h f) of
        (name, err) \<Rightarrow>
          (let h' = h(f := (h f)\<lparr>Name := name\<rparr>) in
           case err of
             Some m \<Rightarrow> (Some (errorString m), h')
           | None \<Rightarrow> absPathLoop self files h'))"

definition List_listArgs :: "ListFilesArgs \<Rightarrow> listAllFilesArgs" where
  \<comment> \<open>\<open>listArgs\<close>, lines 28 to 33\<close>
  "List_listArgs args =
     \<lparr>query = Query args,
      fields' = [''nextPageToken'',
        ''files(id, name, md5Checksum, mimeType, size, createdTime, parents, headRevisionId)''],
      sortOrder = SortOrder args,
      maxFiles = MaxFiles args\<rparr>"

definition List_printArgs :: "ListFilesArgs \<Rightarrow> ptr list \<Rightarrow> PrintFileListArgs" where
  \<comment> \<open>\<open>printArgs\<close>, lines 52 to 60\<close>
  "List_printArgs args files =
     \<lparr>PrintFileListArgs.Out = ListFilesArgs.Out args,
      Files = files,
      PrintFileListArgs.NameWidth = ListFilesArgs.NameWidth args,
      PrintFileListArgs.SkipHeader = ListFilesArgs.SkipHeader args,
      PrintFileListArgs.SizeInBytes = ListFilesArgs.SizeInBytes args,
      Delimiter = of_char CHR ''|'',
      PrintFileListArgs.UseExtended = ListFilesArgs.UseExtended args\<rparr>"

definition List :: "Drive \<Rightarrow> helpers \<Rightarrow> ListFilesArgs \<Rightarrow> world \<Rightarrow> error option \<times> world" where
  "List self hp args wd =
     (case listAllFiles self (List_listArgs args) of
        (files, Some err) \<Rightarrow> (Some (Errorf ''Failed to list files: '' err), wd)
      | (files, None) \<Rightarrow>
          (case (if AbsPath args then absPathLoop self files (files_heap wd)
                 else (None, files_heap wd)) of
             (Some err, h) \<Rightarrow> (Some err, wd\<lparr>files_heap := h\<rparr>)
           | (None, h) \<Rightarrow>
               (let printArgs = List_printArgs args files in
                (None, \<lparr>files_heap = h,
                        written = (if UseCsv args then PrintFileList hp printArgs h (written wd)
                                   else PrintTabbedFileList hp printArgs h (written wd))\<rparr>))))"

section \<open>A small drive to run the functions on\<close>

definition demoFile :: "string \<Rightarrow> File" where
  "demoFile n =
     \<lparr>FileId = ''id-'' @ n, Name = n, Md5Checksum = ''md5-'' @ n, MimeType = ''text/plain'',
      Size = 10, CreatedTime = ''2017-01-01'', Parents = [''root''], HeadRevisionId = ''rev-'' @ n\<rparr>"

definition demoHeap :: heap where
  "demoHeap p = demoFile (if p = 1 then ''a'' else if p = 2 then ''b'' else ''c'')"

definition demoDrive :: Drive where
  "demoDrive =
     \<lparr>service = (\<lambda>c. More [1, 2] (More [3, 4] (Last [5]))),
      absPath = (\<lambda>f. if Name f = ''b'' then ('''', Some ''no parent'') else (''/root/'' @ Name f, None))\<rparr>"

definition failingDrive :: Drive where
  "failingDrive = \<lparr>service = (\<lambda>c. More [1, 2] (Fails ''quota'')), absPath = (\<lambda>f. (Name f, None))\<rparr>"

definition demoListArgs :: "int64 \<Rightarrow> listAllFilesArgs" where
  "demoListArgs n = \<lparr>query = '''', fields' = [], sortOrder = '''', maxFiles = n\<rparr>"

definition demoHelpers :: helpers where
  "demoHelpers =
     \<lparr>truncateString = (\<lambda>s n. take (nat (sint n)) s),
      isDir = (\<lambda>f. MimeType f = ''application/vnd.google-apps.folder''),
      isBinary = (\<lambda>f. Md5Checksum f \<noteq> ''''),
      formatSize = (\<lambda>n b. if b then ''10'' else ''10.0 B''),
      formatDatetime = (\<lambda>t. t)\<rparr>"

definition demoArgs :: "bool \<Rightarrow> bool \<Rightarrow> int64 \<Rightarrow> ListFilesArgs" where
  "demoArgs csv resolve n =
     \<lparr>ListFilesArgs.Out = Writer 0, MaxFiles = n, ListFilesArgs.NameWidth = 40, Query = '''',
      SortOrder = '''', ListFilesArgs.SkipHeader = False, ListFilesArgs.SizeInBytes = True,
      AbsPath = resolve, UseCsv = csv, ListFilesArgs.UseExtended = False\<rparr>"

definition demoWorld :: world where
  "demoWorld = \<lparr>files_heap = demoHeap, written = (\<lambda>w. [])\<rparr>"

definition demoPrintArgs :: "rune \<Rightarrow> bool \<Rightarrow> PrintFileListArgs" where
  "demoPrintArgs d ext =
     \<lparr>PrintFileListArgs.Out = Writer 0, Files = [1, 2], PrintFileListArgs.NameWidth = 40,
      PrintFileListArgs.SkipHeader = False, PrintFileListArgs.SizeInBytes = True,
      Delimiter = d, PrintFileListArgs.UseExtended = ext\<rparr>"


section \<open>Page size\<close>




section \<open>Pagination\<close>

lemma Pages_func1:
  "Pages p (listAllFiles_func1 args) acc = (err, files) \<Longrightarrow>
     (\<exists>ys. acc @ available p = files @ ys)
     \<and> (err = Some controlledStop \<longrightarrow> 0 <s maxFiles args \<and> sint (maxFiles args) \<le> int (length files))
     \<and> (err = None \<longrightarrow> files = acc @ available p)
     \<and> (exhaustible p \<longrightarrow> err = None \<or> err = Some controlledStop)"
proof (induction p arbitrary: acc)
  case (Fails m)
  then show ?case by auto
next
  case (Last fl)
  then show ?case by (auto simp: listAllFiles_func1_def Let_def split: if_splits)
next
  case (More fl rest)
  show ?case
  proof (cases "0 <s maxFiles args \<and> sint (maxFiles args) \<le> int (length (acc @ fl))")
    case True
    then have "listAllFiles_func1 args fl acc = (Some controlledStop, acc @ fl)"
      by (simp add: listAllFiles_func1_def Let_def)
    with More.prems True show ?thesis
      by auto
  next
    case False
    then have "listAllFiles_func1 args fl acc = (None, acc @ fl)"
      by (simp add: listAllFiles_func1_def Let_def)
    with More.prems have "Pages rest (listAllFiles_func1 args) (acc @ fl) = (err, files)"
      by simp
    from More.IH [OF this] show ?thesis by simp
  qed
qed


lemma listPages_facts:
  assumes "listPages self args = (err, files)"
  shows "\<exists>ys. available (service self (listCall args)) = files @ ys"
    and "err = Some controlledStop \<Longrightarrow> 0 <s maxFiles args \<and> sint (maxFiles args) \<le> int (length files)"
    and "err = None \<Longrightarrow> files = available (service self (listCall args))"
    and "exhaustible (service self (listCall args)) \<Longrightarrow> err = None \<or> err = Some controlledStop"
  using Pages_func1 [of "service self (listCall args)" args "[]" err files] assms
  by (simp_all add: listPages_def)

lemma listAllFiles_success:
  assumes "listAllFiles self args = (files, None)"
  shows "files = (if 0 <s maxFiles args
                  then take (nat (sint (maxFiles args))) (available (service self (listCall args)))
                  else available (service self (listCall args)))"
proof -
  obtain err fs where lp: "listPages self args = (err, fs)"
    by (cases "listPages self args")
  from assms lp have ok: "err = None \<or> err = Some controlledStop"
    by (auto simp: listAllFiles_def split: if_splits)
  from assms lp ok have res: "files = (if 0 <s maxFiles args
      then take (nat (min (int (length fs)) (sint (maxFiles args)))) fs else fs)"
    by (auto simp: listAllFiles_def Let_def split: if_splits)
  from listPages_facts(1) [OF lp] obtain ys
    where av: "available (service self (listCall args)) = fs @ ys" by blast
  show ?thesis
  proof (cases "err = None")
    case True
    with listPages_facts(3) [OF lp] have "fs = available (service self (listCall args))" by simp
    with res show ?thesis by (auto simp: min_def)
  next
    case False
    with ok have st: "err = Some controlledStop" by simp
    from listPages_facts(2) [OF lp st]
    have pos: "0 <s maxFiles args" and ge: "sint (maxFiles args) \<le> int (length fs)" by simp_all
    from ge have "nat (sint (maxFiles args)) \<le> length fs" by simp
    with res pos av ge show ?thesis by (simp add: min_def)
  qed
qed

lemma listAllFiles_total:
  assumes "exhaustible (service self (listCall args))"
  shows "snd (listAllFiles self args) = None"
proof -
  obtain err fs where lp: "listPages self args = (err, fs)"
    by (cases "listPages self args")
  from listPages_facts(4) [OF lp assms] lp show ?thesis
    by (auto simp: listAllFiles_def Let_def)
qed

text \<open>
  C1. For a maximum \<open>N > 0\<close>, the records that \<open>listAllFiles\<close> returns are the first \<open>N\<close>
  of the available records in fetch order, so their number is \<open>min N total\<close>; what a page
  brings beyond \<open>N\<close> is dropped from the tail. When no fetch fails, it does return them.
\<close>

theorem listAllFiles_prefix:
  assumes "0 <s maxFiles args"
  shows "(exhaustible (service self (listCall args)) \<longrightarrow>
            listAllFiles self args =
              (take (nat (sint (maxFiles args))) (available (service self (listCall args))), None))
         \<and> (\<forall>files. listAllFiles self args = (files, None) \<longrightarrow>
              files = take (nat (sint (maxFiles args))) (available (service self (listCall args)))
              \<and> int (length files) =
                  min (sint (maxFiles args)) (int (length (available (service self (listCall args))))))"
proof -
  let ?av = "available (service self (listCall args))"
  let ?n = "nat (sint (maxFiles args))"
  from assms have pos: "0 < sint (maxFiles args)" by (simp add: word_sless_alt)
  have a: "files = take ?n ?av" if "listAllFiles self args = (files, None)" for files
    using listAllFiles_success [OF that] assms by simp
  have b: "int (length (take ?n ?av)) = min (sint (maxFiles args)) (int (length ?av))"
    using pos by (simp add: min_def) linarith
  have c: "listAllFiles self args = (take ?n ?av, None)" if "exhaustible (service self (listCall args))"
  proof -
    from listAllFiles_total [OF that] obtain fs where "listAllFiles self args = (fs, None)"
      by (cases "listAllFiles self args") simp
    with a [OF this] show ?thesis by simp
  qed
  from a b c show ?thesis by blast
qed

theorem listAllFiles_prefix_witness:
  "0 <s maxFiles (demoListArgs 3)
   \<and> exhaustible (service demoDrive (listCall (demoListArgs 3)))
   \<and> listAllFiles demoDrive (demoListArgs 3) = ([1, 2, 3], None)"
proof -
  have pos: "0 <s maxFiles (demoListArgs 3)"
    by (simp add: demoListArgs_def word_sless_alt)
  have ex: "exhaustible (service demoDrive (listCall (demoListArgs 3)))"
    by (simp add: demoDrive_def)
  have av: "available (service demoDrive (listCall (demoListArgs 3))) = [1, 2, 3, 4, 5]"
    by (simp add: demoDrive_def)
  have n: "nat (sint (maxFiles (demoListArgs 3))) = 3"
    by (simp add: demoListArgs_def)
  from listAllFiles_prefix [OF pos, of demoDrive] ex
  have "listAllFiles demoDrive (demoListArgs 3) =
          (take (nat (sint (maxFiles (demoListArgs 3))))
             (available (service demoDrive (listCall (demoListArgs 3)))), None)"
    by blast
  then have "listAllFiles demoDrive (demoListArgs 3) = ([1, 2, 3], None)"
    by (simp only: av n) (simp add: numeral_3_eq_3)
  with pos ex show ?thesis by simp
qed

lemma never_stops:
  assumes "\<not> 0 <s maxFiles args"
  shows "fst (listPages self args) \<noteq> Some controlledStop"
proof -
  obtain err fs where lp: "listPages self args = (err, fs)"
    by (cases "listPages self args")
  from listPages_facts(2) [OF lp] assms lp show ?thesis by auto
qed

text \<open>
  C3. With \<open>maxFiles = 0\<close> the callback never asks for the controlled stop, and the result is
  the whole listing, untruncated: whenever \<open>listAllFiles\<close> returns records they are all
  available records in fetch order, and it does return them when no fetch fails.
\<close>

theorem listAllFiles_unbounded:
  assumes "maxFiles args = 0"
  shows "fst (listPages self args) \<noteq> Some controlledStop
         \<and> (exhaustible (service self (listCall args)) \<longrightarrow>
              listAllFiles self args = (available (service self (listCall args)), None))
         \<and> (\<forall>files. listAllFiles self args = (files, None) \<longrightarrow>
              files = available (service self (listCall args)))"
proof -
  from assms have n: "\<not> 0 <s maxFiles args" by (simp add: word_sless_alt)
  have a: "files = available (service self (listCall args))"
    if "listAllFiles self args = (files, None)" for files
    using listAllFiles_success [OF that] n by simp
  have c: "listAllFiles self args = (available (service self (listCall args)), None)"
    if "exhaustible (service self (listCall args))"
  proof -
    from listAllFiles_total [OF that] obtain fs where "listAllFiles self args = (fs, None)"
      by (cases "listAllFiles self args") simp
    with a [OF this] show ?thesis by simp
  qed
  from never_stops [OF n] a c show ?thesis by blast
qed

theorem listAllFiles_unbounded_witness:
  "maxFiles (demoListArgs 0) = 0
   \<and> exhaustible (service demoDrive (listCall (demoListArgs 0)))
   \<and> listAllFiles demoDrive (demoListArgs 0) = ([1, 2, 3, 4, 5], None)"
proof -
  have z: "maxFiles (demoListArgs 0) = 0"
    by (simp add: demoListArgs_def)
  have ex: "exhaustible (service demoDrive (listCall (demoListArgs 0)))"
    by (simp add: demoDrive_def)
  have av: "available (service demoDrive (listCall (demoListArgs 0))) = [1, 2, 3, 4, 5]"
    by (simp add: demoDrive_def)
  from listAllFiles_unbounded [OF z, of demoDrive] ex
  have "listAllFiles demoDrive (demoListArgs 0) =
          (available (service demoDrive (listCall (demoListArgs 0))), None)"
    by blast
  with z ex av show ?thesis by simp
qed

lemma negative_as_zero:
  assumes "maxFiles args <s 0"
  shows "listCall (args\<lparr>maxFiles := 0\<rparr>) = listCall args"
    and "listAllFiles_func1 (args\<lparr>maxFiles := 0\<rparr>) = listAllFiles_func1 args"
    and "\<not> 0 <s maxFiles args"
proof -
  from assms show n: "\<not> 0 <s maxFiles args" by (simp add: word_sless_alt)
  then show "listCall (args\<lparr>maxFiles := 0\<rparr>) = listCall args"
    by (simp add: listCall_def pageSize_def)
  from n show "listAllFiles_func1 (args\<lparr>maxFiles := 0\<rparr>) = listAllFiles_func1 args"
    by (intro ext) (simp add: listAllFiles_func1_def)
qed

text \<open>
  C9. A negative \<open>maxFiles\<close> gives what \<open>maxFiles = 0\<close> gives: the same result of
  \<open>listAllFiles\<close>, page size 1000, no controlled stop, no truncation, and all available
  records when no fetch fails.
\<close>

theorem listAllFiles_negative:
  assumes "maxFiles args <s 0"
  shows "listAllFiles self args = listAllFiles self (args\<lparr>maxFiles := 0\<rparr>)
         \<and> PageSize (listCall args) = 1000
         \<and> fst (listPages self args) \<noteq> Some controlledStop
         \<and> (exhaustible (service self (listCall args)) \<longrightarrow>
              listAllFiles self args = (available (service self (listCall args)), None))
         \<and> (\<forall>files. listAllFiles self args = (files, None) \<longrightarrow>
              files = available (service self (listCall args)))"
proof -
  note nz = negative_as_zero [OF assms]
  have eq: "listAllFiles self args = listAllFiles self (args\<lparr>maxFiles := 0\<rparr>)"
  proof -
    have lp: "listPages self (args\<lparr>maxFiles := 0\<rparr>) = listPages self args"
      using nz by (simp add: listPages_def)
    have z: "\<not> 0 <s (0 :: int64)" by simp
    show ?thesis
      using nz(3) z by (simp add: listAllFiles_def lp split: prod.splits)
  qed
  have ps: "PageSize (listCall args) = 1000"
    using nz(3) by (simp add: listCall_def pageSize_def)
  have a: "files = available (service self (listCall args))"
    if "listAllFiles self args = (files, None)" for files
    using listAllFiles_success [OF that] nz(3) by simp
  have c: "listAllFiles self args = (available (service self (listCall args)), None)"
    if "exhaustible (service self (listCall args))"
  proof -
    from listAllFiles_total [OF that] obtain fs where "listAllFiles self args = (fs, None)"
      by (cases "listAllFiles self args") simp
    with a [OF this] show ?thesis by simp
  qed
  from eq ps never_stops [OF nz(3)] a c show ?thesis by blast
qed

theorem listAllFiles_negative_witness:
  "maxFiles (demoListArgs (- 7)) <s 0
   \<and> exhaustible (service demoDrive (listCall (demoListArgs (- 7))))
   \<and> listAllFiles demoDrive (demoListArgs (- 7)) = ([1, 2, 3, 4, 5], None)
   \<and> PageSize (listCall (demoListArgs (- 7))) = 1000"
proof -
  have neg: "maxFiles (demoListArgs (- 7)) <s 0"
    by (simp add: demoListArgs_def word_sless_alt)
  have ex: "exhaustible (service demoDrive (listCall (demoListArgs (- 7))))"
    by (simp add: demoDrive_def)
  have av: "available (service demoDrive (listCall (demoListArgs (- 7)))) = [1, 2, 3, 4, 5]"
    by (simp add: demoDrive_def)
  from listAllFiles_negative [OF neg, of demoDrive] ex
  have "listAllFiles demoDrive (demoListArgs (- 7)) =
          (available (service demoDrive (listCall (demoListArgs (- 7)))), None)"
    and "PageSize (listCall (demoListArgs (- 7))) = 1000"
    by blast+
  with neg ex av show ?thesis by simp
qed

section \<open>Errors\<close>

lemma Pages_failure:
  "Pages p (listAllFiles_func1 args) acc = (err, files) \<Longrightarrow>
     (\<forall>m. err = Some (errorString m) \<longrightarrow> failure p = Some m)
     \<and> (\<forall>m. failure p = Some m \<longrightarrow> err = Some controlledStop \<or> err = Some (errorString m))"
proof (induction p arbitrary: acc)
  case (Fails m)
  then show ?case by auto
next
  case (Last fl)
  then show ?case by (auto simp: listAllFiles_func1_def Let_def split: if_splits)
next
  case (More fl rest)
  show ?case
  proof (cases "0 <s maxFiles args \<and> sint (maxFiles args) \<le> int (length (acc @ fl))")
    case True
    then have "listAllFiles_func1 args fl acc = (Some controlledStop, acc @ fl)"
      by (simp add: listAllFiles_func1_def Let_def)
    with More.prems show ?thesis by auto
  next
    case False
    then have "listAllFiles_func1 args fl acc = (None, acc @ fl)"
      by (simp add: listAllFiles_func1_def Let_def)
    with More.prems have "Pages rest (listAllFiles_func1 args) (acc @ fl) = (err, files)"
      by simp
    from More.IH [OF this] show ?thesis by simp
  qed
qed

lemma listAllFiles_no_sentinel: "snd (listAllFiles self args) \<noteq> Some controlledStop"
  by (auto simp: listAllFiles_def Let_def split: prod.splits)

lemma listAllFiles_propagates:
  assumes "fst (listPages self args) = Some e" and "e \<noteq> controlledStop"
  shows "listAllFiles self args = ([], Some e)"
  using assms by (auto simp: listAllFiles_def split: prod.splits)

lemma listAllFiles_stop_is_success:
  assumes "fst (listPages self args) = Some controlledStop"
  shows "snd (listAllFiles self args) = None"
  using assms by (auto simp: listAllFiles_def Let_def split: prod.splits)

lemma listPages_failure:
  assumes "failure (service self (listCall args)) = Some m"
    and "fst (listPages self args) \<noteq> Some controlledStop"
  shows "fst (listPages self args) = Some (errorString m)"
proof -
  obtain err fs where lp: "listPages self args = (err, fs)"
    by (cases "listPages self args")
  then have "Pages (service self (listCall args)) (listAllFiles_func1 args) [] = (err, fs)"
    by (simp add: listPages_def)
  from Pages_failure [OF this] assms(1)
  have "err = Some controlledStop \<or> err = Some (errorString m)" by blast
  moreover from assms(2) lp have "err \<noteq> Some controlledStop" by simp
  ultimately show ?thesis using lp by simp
qed

lemma absPathLoop_no_sentinel: "fst (absPathLoop self files h) \<noteq> Some controlledStop"
  by (induction files arbitrary: h) (auto simp: Let_def split: prod.splits option.splits)

lemma List_fetch_failure:
  assumes "listAllFiles self (List_listArgs args) = (fs, Some e)"
  shows "List self hp args wd = (Some (errorString (''Failed to list files: '' @ Error e)), wd)"
  using assms by (simp add: List_def Errorf_def)

lemma List_no_sentinel: "fst (List self hp args wd) \<noteq> Some controlledStop"
proof (cases "listAllFiles self (List_listArgs args)")
  case (Pair fs r)
  show ?thesis
  proof (cases r)
    case (Some e)
    with Pair List_fetch_failure [of self args fs e hp wd] show ?thesis by simp
  next
    case None
    obtain r' h where lp: "(if AbsPath args then absPathLoop self fs (files_heap wd)
        else (None, files_heap wd)) = (r', h)"
      by (cases "if AbsPath args then absPathLoop self fs (files_heap wd) else (None, files_heap wd)")
    with absPathLoop_no_sentinel [of self fs "files_heap wd"] have "r' \<noteq> Some controlledStop"
      by (auto split: if_splits)
    with Pair None lp show ?thesis
      by (cases r') (simp_all add: List_def Let_def)
  qed
qed

text \<open>
  C2. Neither \<open>listAllFiles\<close> nor \<open>List\<close> returns the controlled-stop sentinel. When the
  pagination ends with the sentinel, \<open>listAllFiles\<close> succeeds. Any other error of the
  pagination, which is the failure of a fetch, is returned by \<open>listAllFiles\<close> as it is, with
  no records, and by \<open>List\<close> inside a message that starts with "Failed to list files: ",
  with nothing written.
\<close>

theorem sentinel_never_returned:
  "snd (listAllFiles self largs) \<noteq> Some controlledStop
   \<and> fst (List self hp args wd) \<noteq> Some controlledStop
   \<and> (fst (listPages self largs) = Some controlledStop \<longrightarrow> snd (listAllFiles self largs) = None)
   \<and> (\<forall>e. fst (listPages self largs) = Some e \<and> e \<noteq> controlledStop \<longrightarrow>
          listAllFiles self largs = ([], Some e))
   \<and> (\<forall>m. failure (service self (listCall largs)) = Some m
            \<and> fst (listPages self largs) \<noteq> Some controlledStop \<longrightarrow>
          listAllFiles self largs = ([], Some (errorString m)))
   \<and> (\<forall>e. fst (listPages self (List_listArgs args)) = Some e \<and> e \<noteq> controlledStop \<longrightarrow>
          List self hp args wd =
            (Some (errorString (''Failed to list files: '' @ Error e)), wd))"
proof -
  have a: "listAllFiles self largs = ([], Some (errorString m))"
    if "failure (service self (listCall largs)) = Some m"
      and "fst (listPages self largs) \<noteq> Some controlledStop" for m
    using listAllFiles_propagates [OF listPages_failure [OF that]] by simp
  have b: "List self hp args wd = (Some (errorString (''Failed to list files: '' @ Error e)), wd)"
    if "fst (listPages self (List_listArgs args)) = Some e" and "e \<noteq> controlledStop" for e
    using List_fetch_failure [OF listAllFiles_propagates [OF that]] .
  have c: "listAllFiles self largs = ([], Some e)"
    if "fst (listPages self largs) = Some e \<and> e \<noteq> controlledStop" for e
    using that listAllFiles_propagates [of self largs e] by simp
  show ?thesis
  proof (intro conjI allI impI)
    show "snd (listAllFiles self largs) \<noteq> Some controlledStop"
      by (rule listAllFiles_no_sentinel)
    show "fst (List self hp args wd) \<noteq> Some controlledStop"
      by (rule List_no_sentinel)
    show "snd (listAllFiles self largs) = None"
      if "fst (listPages self largs) = Some controlledStop"
      using that by (rule listAllFiles_stop_is_success)
    show "listAllFiles self largs = ([], Some e)"
      if "fst (listPages self largs) = Some e \<and> e \<noteq> controlledStop" for e
      using that by (rule c)
    show "listAllFiles self largs = ([], Some (errorString m))"
      if "failure (service self (listCall largs)) = Some m
          \<and> fst (listPages self largs) \<noteq> Some controlledStop" for m
      using that a by simp
    show "List self hp args wd = (Some (errorString (''Failed to list files: '' @ Error e)), wd)"
      if "fst (listPages self (List_listArgs args)) = Some e \<and> e \<noteq> controlledStop" for e
      using that b by simp
  qed
qed

theorem sentinel_never_returned_witness:
  "fst (listPages demoDrive (demoListArgs 3)) = Some controlledStop
   \<and> snd (listAllFiles demoDrive (demoListArgs 3)) = None
   \<and> failure (service failingDrive (listCall (List_listArgs (demoArgs True False 3)))) = Some ''quota''
   \<and> fst (listPages failingDrive (List_listArgs (demoArgs True False 3))) = Some (errorString ''quota'')
   \<and> errorString ''quota'' \<noteq> controlledStop
   \<and> listAllFiles failingDrive (List_listArgs (demoArgs True False 3)) = ([], Some (errorString ''quota''))
   \<and> List failingDrive demoHelpers (demoArgs True False 3) demoWorld =
        (Some (errorString ''Failed to list files: quota''), demoWorld)"
proof -
  have p1: "fst (listPages demoDrive (demoListArgs 3)) = Some controlledStop"
    by (simp add: listPages_def demoDrive_def demoListArgs_def listAllFiles_func1_def word_sless_alt)
  have f2: "failure (service failingDrive (listCall (List_listArgs (demoArgs True False 3)))) = Some ''quota''"
    by (simp add: failingDrive_def)
  have p2: "fst (listPages failingDrive (List_listArgs (demoArgs True False 3))) = Some (errorString ''quota'')"
    by (simp add: listPages_def failingDrive_def List_listArgs_def demoArgs_def
        listAllFiles_func1_def word_sless_alt)
  note t1 = sentinel_never_returned [of demoDrive "demoListArgs 3" demoHelpers "demoArgs True False 3" demoWorld]
  note t2 = sentinel_never_returned [of failingDrive "List_listArgs (demoArgs True False 3)"
      demoHelpers "demoArgs True False 3" demoWorld]
  from t1 p1 have r1: "snd (listAllFiles demoDrive (demoListArgs 3)) = None" by blast
  from t2 p2 have r2: "listAllFiles failingDrive (List_listArgs (demoArgs True False 3)) =
      ([], Some (errorString ''quota''))"
    by blast
  from t2 p2 have "List failingDrive demoHelpers (demoArgs True False 3) demoWorld =
      (Some (errorString (''Failed to list files: '' @ Error (errorString ''quota''))), demoWorld)"
    by blast
  then have r3: "List failingDrive demoHelpers (demoArgs True False 3) demoWorld =
      (Some (errorString ''Failed to list files: quota''), demoWorld)"
    by simp
  have d: "errorString ''quota'' \<noteq> controlledStop" by simp
  from p1 r1 f2 p2 d r2 r3 show ?thesis by (intro conjI)
qed

section \<open>Absolute-path mode\<close>

text \<open>
  The service decodes every record of every page into an object of its own, so the
  pointers of a listing are distinct; the statements about single records assume it.
\<close>

lemma absPathLoop_outside:
  "absPathLoop self files h = (err, h') \<Longrightarrow> p \<notin> set files \<Longrightarrow> h' p = h p"
proof (induction files arbitrary: h)
  case Nil
  then show ?case by simp
next
  case (Cons f files)
  obtain name r where ap: "absPath self (h f) = (name, r)"
    by (cases "absPath self (h f)")
  let ?h1 = "h(f := (h f)\<lparr>Name := name\<rparr>)"
  from Cons.prems(2) have pf: "p \<noteq> f" and pfs: "p \<notin> set files" by auto
  show ?case
  proof (cases r)
    case None
    with Cons.prems(1) ap have "absPathLoop self files ?h1 = (err, h')" by simp
    from Cons.IH [OF this pfs] pf show ?thesis by simp
  next
    case (Some m)
    with Cons.prems(1) ap have "h' = ?h1" by simp
    with pf show ?thesis by simp
  qed
qed

lemma absPathLoop_frame:
  "absPathLoop self files h = (err, h') \<Longrightarrow> h' p = (h p)\<lparr>Name := Name (h' p)\<rparr>"
proof (induction files arbitrary: h)
  case Nil
  then show ?case by simp
next
  case (Cons f files)
  obtain name r where ap: "absPath self (h f) = (name, r)"
    by (cases "absPath self (h f)")
  let ?h1 = "h(f := (h f)\<lparr>Name := name\<rparr>)"
  have h1: "?h1 p = (h p)\<lparr>Name := Name (?h1 p)\<rparr>" by simp
  show ?case
  proof (cases r)
    case None
    with Cons.prems ap have "absPathLoop self files ?h1 = (err, h')" by simp
    from Cons.IH [OF this] have "h' p = (?h1 p)\<lparr>Name := Name (h' p)\<rparr>" .
    then show ?thesis by (cases "p = f") simp_all
  next
    case (Some m)
    with Cons.prems ap have "h' = ?h1" by simp
    with h1 show ?thesis by simp
  qed
qed

lemma absPathLoop_fails_at:
  assumes "distinct files" and "k < length files"
    and "\<forall>i<k. snd (absPath self (h (files ! i))) = None"
    and "snd (absPath self (h (files ! k))) = Some m"
  shows "\<exists>h'. absPathLoop self files h = (Some (errorString m), h')
            \<and> (\<forall>i\<le>k. Name (h' (files ! i)) = fst (absPath self (h (files ! i))))
            \<and> (\<forall>i. k < i \<and> i < length files \<longrightarrow> h' (files ! i) = h (files ! i))"
  using assms
proof (induction files arbitrary: h k)
  case Nil
  then show ?case by simp
next
  case (Cons f files)
  obtain name r where ap: "absPath self (h f) = (name, r)"
    by (cases "absPath self (h f)")
  let ?h1 = "h(f := (h f)\<lparr>Name := name\<rparr>)"
  from Cons.prems(1) have nf: "f \<notin> set files" and dist: "distinct files" by simp_all
  have same: "?h1 (files ! i) = h (files ! i)" if "i < length files" for i
    using that nf by (auto simp: in_set_conv_nth)
  show ?case
  proof (cases k)
    case 0
    with Cons.prems(4) ap have r: "r = Some m" by simp
    with ap have run: "absPathLoop self (f # files) h = (Some (errorString m), ?h1)" by simp
    have "\<forall>i\<le>k. Name (?h1 ((f # files) ! i)) = fst (absPath self (h ((f # files) ! i)))"
      using 0 ap by simp
    moreover have "\<forall>i. k < i \<and> i < length (f # files) \<longrightarrow> ?h1 ((f # files) ! i) = h ((f # files) ! i)"
    proof (intro allI impI)
      fix i assume "k < i \<and> i < length (f # files)"
      then obtain j where j: "i = Suc j" "j < length files" by (cases i) auto
      with same [of j] show "?h1 ((f # files) ! i) = h ((f # files) ! i)" by simp
    qed
    ultimately show ?thesis using run by blast
  next
    case (Suc j)
    with Cons.prems(3) have "snd (absPath self (h ((f # files) ! 0))) = None" by blast
    with ap have r: "r = None" by simp
    with ap have run: "absPathLoop self (f # files) h = absPathLoop self files ?h1" by simp
    from Suc Cons.prems(2) have jl: "j < length files" by simp
    have p3: "\<forall>i<j. snd (absPath self (?h1 (files ! i))) = None"
    proof (intro allI impI)
      fix i assume ij: "i < j"
      with Suc Cons.prems(3) have "snd (absPath self (h ((f # files) ! Suc i))) = None" by blast
      with same [of i] ij jl show "snd (absPath self (?h1 (files ! i))) = None" by simp
    qed
    from Suc Cons.prems(4) same [OF jl]
    have p4: "snd (absPath self (?h1 (files ! j))) = Some m" by simp
    from Cons.IH [OF dist jl p3 p4] obtain h'
      where run': "absPathLoop self files ?h1 = (Some (errorString m), h')"
        and before: "\<forall>i\<le>j. Name (h' (files ! i)) = fst (absPath self (?h1 (files ! i)))"
        and after: "\<forall>i. j < i \<and> i < length files \<longrightarrow> h' (files ! i) = ?h1 (files ! i)"
      by blast
    from absPathLoop_outside [OF run' nf] have hf: "h' f = ?h1 f" .
    have "\<forall>i\<le>k. Name (h' ((f # files) ! i)) = fst (absPath self (h ((f # files) ! i)))"
    proof (intro allI impI)
      fix i assume ik: "i \<le> k"
      show "Name (h' ((f # files) ! i)) = fst (absPath self (h ((f # files) ! i)))"
      proof (cases i)
        case 0
        with hf ap show ?thesis by simp
      next
        case (Suc i')
        with ik \<open>k = Suc j\<close> have le: "i' \<le> j" by simp
        with jl have "i' < length files" by simp
        from same [OF this] before le Suc show ?thesis by simp
      qed
    qed
    moreover have "\<forall>i. k < i \<and> i < length (f # files) \<longrightarrow> h' ((f # files) ! i) = h ((f # files) ! i)"
    proof (intro allI impI)
      fix i assume a: "k < i \<and> i < length (f # files)"
      then obtain i' where i': "i = Suc i'" "i' < length files" "j < i'"
        using \<open>k = Suc j\<close> by (cases i) auto
      with after same [of i'] show "h' ((f # files) ! i) = h ((f # files) ! i)" by simp
    qed
    ultimately show ?thesis using run run' by simp
  qed
qed

lemma List_absPath_failure:
  assumes "AbsPath args"
    and "listAllFiles self (List_listArgs args) = (files, None)"
    and "absPathLoop self files (files_heap wd) = (Some e, h')"
  shows "List self hp args wd = (Some e, wd\<lparr>files_heap := h'\<rparr>)"
  using assms by (simp add: List_def)

lemma List_frame:
  "files_heap (snd (List self hp args wd)) p =
     (files_heap wd p)\<lparr>Name := Name (files_heap (snd (List self hp args wd)) p)\<rparr>"
proof (cases "listAllFiles self (List_listArgs args)")
  case (Pair fs r)
  show ?thesis
  proof (cases r)
    case (Some e)
    with Pair have "List self hp args wd = (Some (Errorf ''Failed to list files: '' e), wd)"
      by (simp add: List_def)
    then show ?thesis by simp
  next
    case None
    obtain r' h where lp: "(if AbsPath args then absPathLoop self fs (files_heap wd)
        else (None, files_heap wd)) = (r', h)"
      by (cases "if AbsPath args then absPathLoop self fs (files_heap wd) else (None, files_heap wd)")
    have fr: "h p = (files_heap wd p)\<lparr>Name := Name (h p)\<rparr>"
    proof (cases "AbsPath args")
      case True
      with lp have "absPathLoop self fs (files_heap wd) = (r', h)" by simp
      then show ?thesis by (rule absPathLoop_frame)
    next
      case False
      with lp show ?thesis by simp
    qed
    from Pair None lp have "files_heap (snd (List self hp args wd)) = h"
      by (cases r') (simp_all add: List_def Let_def)
    with fr show ?thesis by simp
  qed
qed

lemma absPathLoop_succeeds:
  assumes "distinct files"
    and "\<forall>i<length files. snd (absPath self (h (files ! i))) = None"
  shows "\<exists>h'. absPathLoop self files h = (None, h')
            \<and> (\<forall>i<length files. Name (h' (files ! i)) = fst (absPath self (h (files ! i))))"
  using assms
proof (induction files arbitrary: h)
  case Nil
  then show ?case by simp
next
  case (Cons f files)
  obtain name r where ap: "absPath self (h f) = (name, r)"
    by (cases "absPath self (h f)")
  let ?h1 = "h(f := (h f)\<lparr>Name := name\<rparr>)"
  from Cons.prems(1) have nf: "f \<notin> set files" and dist: "distinct files" by simp_all
  have same: "?h1 (files ! i) = h (files ! i)" if "i < length files" for i
    using that nf by (auto simp: in_set_conv_nth)
  from Cons.prems(2) have "snd (absPath self (h ((f # files) ! 0))) = None" by blast
  with ap have r: "r = None" by simp
  with ap have run: "absPathLoop self (f # files) h = absPathLoop self files ?h1" by simp
  have p2: "\<forall>i<length files. snd (absPath self (?h1 (files ! i))) = None"
  proof (intro allI impI)
    fix i assume il: "i < length files"
    with Cons.prems(2) have "snd (absPath self (h ((f # files) ! Suc i))) = None" by auto
    with same [OF il] show "snd (absPath self (?h1 (files ! i))) = None" by simp
  qed
  from Cons.IH [OF dist p2] obtain h'
    where run': "absPathLoop self files ?h1 = (None, h')"
      and names: "\<forall>i<length files. Name (h' (files ! i)) = fst (absPath self (?h1 (files ! i)))"
    by blast
  from absPathLoop_outside [OF run' nf] have hf: "h' f = ?h1 f" .
  have "\<forall>i<length (f # files). Name (h' ((f # files) ! i)) = fst (absPath self (h ((f # files) ! i)))"
  proof (intro allI impI)
    fix i assume il: "i < length (f # files)"
    show "Name (h' ((f # files) ! i)) = fst (absPath self (h ((f # files) ! i)))"
    proof (cases i)
      case 0
      with hf ap show ?thesis by simp
    next
      case (Suc i')
      with il have "i' < length files" by simp
      from same [OF this] names this Suc show ?thesis by simp
    qed
  qed
  with run run' show ?case by simp
qed

lemma List_absPath_success:
  assumes "AbsPath args"
    and "listAllFiles self (List_listArgs args) = (files, None)"
    and "absPathLoop self files (files_heap wd) = (None, h')"
  shows "fst (List self hp args wd) = None \<and> files_heap (snd (List self hp args wd)) = h'"
  using assms by (simp add: List_def Let_def)

lemma demo_listing:
  "listAllFiles demoDrive (List_listArgs (demoArgs c r 0)) = ([1, 2, 3, 4, 5], None)"
  by (simp add: listAllFiles_def listPages_def demoDrive_def List_listArgs_def demoArgs_def
      listAllFiles_func1_def)

text \<open>
  C5. In absolute-path mode, when a call of \<open>absPath\<close> in the loop fails, \<open>List\<close> returns
  that error and no sink has received a row: what is written is what was written before
  the call. So it is when the resolution of some fetched record fails: the error is that
  of the first such record of the listing.
\<close>

theorem absPath_failure_aborts:
  assumes "AbsPath args"
    and "listAllFiles self (List_listArgs args) = (files, None)"
  shows "(\<forall>e. fst (absPathLoop self files (files_heap wd)) = Some e \<longrightarrow>
            fst (List self hp args wd) = Some e
            \<and> written (snd (List self hp args wd)) = written wd)
         \<and> (distinct files \<and> q \<in> set files \<and> snd (absPath self (files_heap wd q)) \<noteq> None \<longrightarrow>
              (\<exists>p m. find (\<lambda>p. snd (absPath self (files_heap wd p)) \<noteq> None) files = Some p
                 \<and> snd (absPath self (files_heap wd p)) = Some m
                 \<and> fst (List self hp args wd) = Some (errorString m)
                 \<and> written (snd (List self hp args wd)) = written wd))"
proof (intro conjI allI impI)
  fix e assume "fst (absPathLoop self files (files_heap wd)) = Some e"
  then obtain h' where "absPathLoop self files (files_heap wd) = (Some e, h')"
    by (cases "absPathLoop self files (files_heap wd)") simp
  from List_absPath_failure [OF assms this]
  have res: "List self hp args wd = (Some e, wd\<lparr>files_heap := h'\<rparr>)" .
  then show "fst (List self hp args wd) = Some e" by simp
  from res show "written (snd (List self hp args wd)) = written wd" by simp
next
  let ?P = "\<lambda>p. snd (absPath self (files_heap wd p)) \<noteq> None"
  assume a: "distinct files \<and> q \<in> set files \<and> snd (absPath self (files_heap wd q)) \<noteq> None"
  then have dist: "distinct files" by simp
  from a have "find ?P files \<noteq> None"
    by (auto simp: find_None_iff)
  then obtain p where fp: "find ?P files = Some p" by blast
  then obtain k where k: "k < length files" "?P (files ! k)" "p = files ! k"
    "\<forall>j<k. \<not> ?P (files ! j)"
    unfolding find_Some_iff by blast
  from k(2) obtain m where m: "snd (absPath self (files_heap wd (files ! k))) = Some m" by blast
  from k(4) have before: "\<forall>i<k. snd (absPath self (files_heap wd (files ! i))) = None" by simp
  from absPathLoop_fails_at [OF dist k(1) before m] obtain h'
    where "absPathLoop self files (files_heap wd) = (Some (errorString m), h')" by blast
  from List_absPath_failure [OF assms this]
  have "List self hp args wd = (Some (errorString m), wd\<lparr>files_heap := h'\<rparr>)" .
  with fp m k(3)
  show "\<exists>p m. find ?P files = Some p
           \<and> snd (absPath self (files_heap wd p)) = Some m
           \<and> fst (List self hp args wd) = Some (errorString m)
           \<and> written (snd (List self hp args wd)) = written wd"
    by simp
qed

theorem absPath_failure_aborts_witness:
  "AbsPath (demoArgs False True 0)
   \<and> listAllFiles demoDrive (List_listArgs (demoArgs False True 0)) = ([1, 2, 3, 4, 5], None)
   \<and> fst (absPathLoop demoDrive [1, 2, 3, 4, 5] (files_heap demoWorld)) =
        Some (errorString ''no parent'')
   \<and> distinct [1, 2, 3, 4, 5 :: ptr]
   \<and> 2 \<in> set [1, 2, 3, 4, 5 :: ptr]
   \<and> snd (absPath demoDrive (files_heap demoWorld 2)) = Some ''no parent''
   \<and> fst (List demoDrive demoHelpers (demoArgs False True 0) demoWorld) =
        Some (errorString ''no parent'')
   \<and> written (snd (List demoDrive demoHelpers (demoArgs False True 0) demoWorld)) =
        written demoWorld"
proof -
  have a1: "AbsPath (demoArgs False True 0)" by (simp add: demoArgs_def)
  note a2 = demo_listing [of False True]
  have a3: "distinct [1, 2, 3, 4, 5 :: ptr]" by simp
  have a4: "2 \<in> set [1, 2, 3, 4, 5 :: ptr]" by simp
  have r1: "absPath demoDrive (files_heap demoWorld 1) = (''/root/a'', None)"
    by (simp add: demoDrive_def demoWorld_def demoHeap_def demoFile_def)
  have r2: "snd (absPath demoDrive (files_heap demoWorld 2)) = Some ''no parent''"
    by (simp add: demoDrive_def demoWorld_def demoHeap_def demoFile_def)
  then have a5: "snd (absPath demoDrive (files_heap demoWorld 2)) \<noteq> None" by simp
  have f: "find (\<lambda>p. snd (absPath demoDrive (files_heap demoWorld p)) \<noteq> None) [1, 2, 3, 4, 5] = Some 2"
    using r1 r2 by simp
  note t = absPath_failure_aborts [OF a1 a2, where hp = demoHelpers and wd = demoWorld and q = 2]
  from t a3 a4 a5 f r2
  have res: "fst (List demoDrive demoHelpers (demoArgs False True 0) demoWorld) =
          Some (errorString ''no parent'')
        \<and> written (snd (List demoDrive demoHelpers (demoArgs False True 0) demoWorld)) =
          written demoWorld"
    by auto
  have lp: "fst (absPathLoop demoDrive [1, 2, 3, 4, 5] (files_heap demoWorld)) =
        Some (errorString ''no parent'')"
    by (simp add: demoDrive_def demoWorld_def demoHeap_def demoFile_def)
  from a1 a2 lp a3 a4 r2 res show ?thesis by (intro conjI) simp_all
qed

text \<open>
  C10. In absolute-path mode \<open>List\<close> assigns the resolved path to the \<open>Name\<close> of the fetched
  records through their pointers, in the order of the listing. When the resolution
  fails first at index \<open>k\<close>, \<open>List\<close> returns that error, the records before \<open>k\<close> keep
  their resolved paths in the heap and those after \<open>k\<close> are untouched; when no resolution
  fails (\<open>k\<close> is the length of the listing), every record has its resolved path. In every
  run of \<open>List\<close>, a record of the heap differs from what it was in \<open>Name\<close> at most.
\<close>

theorem absPath_in_place:
  assumes "AbsPath args"
    and "listAllFiles self (List_listArgs args) = (files, None)"
    and "distinct files"
    and "\<forall>i<k. snd (absPath self (files_heap wd (files ! i))) = None"
  shows "(k < length files \<and> snd (absPath self (files_heap wd (files ! k))) = Some m \<longrightarrow>
            fst (List self hp args wd) = Some (errorString m)
            \<and> (\<forall>i<k. Name (files_heap (snd (List self hp args wd)) (files ! i)) =
                        fst (absPath self (files_heap wd (files ! i))))
            \<and> (\<forall>i. k < i \<and> i < length files \<longrightarrow>
                   files_heap (snd (List self hp args wd)) (files ! i) = files_heap wd (files ! i)))
         \<and> (k = length files \<longrightarrow>
              fst (List self hp args wd) = None
              \<and> (\<forall>i<k. Name (files_heap (snd (List self hp args wd)) (files ! i)) =
                          fst (absPath self (files_heap wd (files ! i)))))
         \<and> (\<forall>p. files_heap (snd (List self hp args wd)) p =
                  (files_heap wd p)\<lparr>Name := Name (files_heap (snd (List self hp args wd)) p)\<rparr>)"
proof (intro conjI impI)
  assume f: "k < length files \<and> snd (absPath self (files_heap wd (files ! k))) = Some m"
  then have kl: "k < length files"
    and km: "snd (absPath self (files_heap wd (files ! k))) = Some m" by simp_all
  from absPathLoop_fails_at [OF assms(3) kl assms(4) km] obtain h'
    where run: "absPathLoop self files (files_heap wd) = (Some (errorString m), h')"
      and before: "\<forall>i\<le>k. Name (h' (files ! i)) = fst (absPath self (files_heap wd (files ! i)))"
      and after: "\<forall>i. k < i \<and> i < length files \<longrightarrow> h' (files ! i) = files_heap wd (files ! i)"
    by blast
  from List_absPath_failure [OF assms(1,2) run]
  have res: "List self hp args wd = (Some (errorString m), wd\<lparr>files_heap := h'\<rparr>)" .
  then show "fst (List self hp args wd) = Some (errorString m)" by simp
  from res before
  show "\<forall>i<k. Name (files_heap (snd (List self hp args wd)) (files ! i)) =
                fst (absPath self (files_heap wd (files ! i)))"
    by simp
  from res after
  show "\<forall>i. k < i \<and> i < length files \<longrightarrow>
          files_heap (snd (List self hp args wd)) (files ! i) = files_heap wd (files ! i)"
    by simp
next
  assume kl: "k = length files"
  with assms(4) have "\<forall>i<length files. snd (absPath self (files_heap wd (files ! i))) = None"
    by simp
  from absPathLoop_succeeds [OF assms(3) this] obtain h'
    where run: "absPathLoop self files (files_heap wd) = (None, h')"
      and names: "\<forall>i<length files. Name (h' (files ! i)) = fst (absPath self (files_heap wd (files ! i)))"
    by blast
  from List_absPath_success [OF assms(1,2) run]
  have res: "fst (List self hp args wd) = None \<and> files_heap (snd (List self hp args wd)) = h'" .
  then show "fst (List self hp args wd) = None" by simp
  from res names kl
  show "\<forall>i<k. Name (files_heap (snd (List self hp args wd)) (files ! i)) =
                fst (absPath self (files_heap wd (files ! i)))"
    by simp
next
  show "\<forall>p. files_heap (snd (List self hp args wd)) p =
          (files_heap wd p)\<lparr>Name := Name (files_heap (snd (List self hp args wd)) p)\<rparr>"
    by (intro allI) (rule List_frame)
qed

theorem absPath_in_place_witness:
  "AbsPath (demoArgs False True 0)
   \<and> listAllFiles demoDrive (List_listArgs (demoArgs False True 0)) = ([1, 2, 3, 4, 5], None)
   \<and> distinct [1, 2, 3, 4, 5 :: ptr]
   \<and> snd (absPath demoDrive (files_heap demoWorld ([1, 2, 3, 4, 5] ! 0))) = None
   \<and> 1 < length [1, 2, 3, 4, 5 :: ptr]
   \<and> snd (absPath demoDrive (files_heap demoWorld ([1, 2, 3, 4, 5] ! 1))) = Some ''no parent''
   \<and> fst (List demoDrive demoHelpers (demoArgs False True 0) demoWorld) =
        Some (errorString ''no parent'')
   \<and> Name (files_heap demoWorld 1) = ''a''
   \<and> Name (files_heap (snd (List demoDrive demoHelpers (demoArgs False True 0) demoWorld)) 1) =
        ''/root/a''
   \<and> files_heap (snd (List demoDrive demoHelpers (demoArgs False True 0) demoWorld)) 3 =
        files_heap demoWorld 3"
proof -
  let ?L = "List demoDrive demoHelpers (demoArgs False True 0) demoWorld"
  have a1: "AbsPath (demoArgs False True 0)" by (simp add: demoArgs_def)
  note a2 = demo_listing [of False True]
  have a3: "distinct [1, 2, 3, 4, 5 :: ptr]" by simp
  have r0: "absPath demoDrive (files_heap demoWorld ([1, 2, 3, 4, 5] ! 0)) = (''/root/a'', None)"
    by (simp add: demoDrive_def demoWorld_def demoHeap_def demoFile_def)
  then have a4: "\<forall>i<1. snd (absPath demoDrive (files_heap demoWorld ([1, 2, 3, 4, 5] ! i))) = None"
    by simp
  have kl: "1 < length [1, 2, 3, 4, 5 :: ptr]" by simp
  have r1: "snd (absPath demoDrive (files_heap demoWorld ([1, 2, 3, 4, 5] ! 1))) = Some ''no parent''"
    by (simp add: demoDrive_def demoWorld_def demoHeap_def demoFile_def)
  have n1: "Name (files_heap demoWorld 1) = ''a''"
    by (simp add: demoWorld_def demoHeap_def demoFile_def)
  from absPath_in_place [OF a1 a2 a3 a4, of "''no parent''" demoHelpers] kl r1
  have e: "fst ?L = Some (errorString ''no parent'')"
    and b: "\<forall>i<1. Name (files_heap (snd ?L) ([1, 2, 3, 4, 5] ! i)) =
                fst (absPath demoDrive (files_heap demoWorld ([1, 2, 3, 4, 5] ! i)))"
    and c: "\<forall>i. 1 < i \<and> i < length [1, 2, 3, 4, 5 :: ptr] \<longrightarrow>
                files_heap (snd ?L) ([1, 2, 3, 4, 5] ! i) = files_heap demoWorld ([1, 2, 3, 4, 5] ! i)"
    by blast+
  from b r0 have b1: "Name (files_heap (snd ?L) 1) = ''/root/a''" by simp
  have "(1::nat) < 2 \<and> 2 < length [1, 2, 3, 4, 5 :: ptr]" by simp
  with c have "files_heap (snd ?L) ([1, 2, 3, 4, 5] ! 2) = files_heap demoWorld ([1, 2, 3, 4, 5] ! 2)"
    by blast
  then have c3: "files_heap (snd ?L) 3 = files_heap demoWorld 3" by simp
  from r0 have r0': "snd (absPath demoDrive (files_heap demoWorld ([1, 2, 3, 4, 5] ! 0))) = None"
    by simp
  from a1 a2 a3 r0' kl r1 e n1 b1 c3 show ?thesis by (intro conjI)
qed

section \<open>Columns of the two renderings\<close>

lemma csvWriteAll_valid:
  "validDelim (Comma w) \<Longrightarrow>
     csvWriteAll w records s = (None, s(dest w := s (dest w) @ map (CsvRecord (Comma w)) records))"
  by (induction records arbitrary: s) (simp_all add: csvWrite_def)

lemma csvWriteAll_invalid:
  "\<not> validDelim (Comma w) \<Longrightarrow> snd (csvWriteAll w records s) = s"
  by (cases records) (simp_all add: csvWrite_def)

lemma PrintFileList_rows:
  "validDelim (Delimiter args) \<Longrightarrow>
   PrintFileList hp args h s =
     s(Stdout := s Stdout
        @ (if PrintFileListArgs.SkipHeader args then []
           else [CsvRecord (Delimiter args) (csvHeaders args)])
        @ map (\<lambda>f. CsvRecord (Delimiter args) (csvRecord hp args (h f))) (Files args))"
  by (simp add: PrintFileList_def NewWriter_def csvWriteAll_valid csvWrite_def comp_def Let_def)

lemma PrintFileList_invalid:
  "\<not> validDelim (Delimiter args) \<Longrightarrow> PrintFileList hp args h s = s"
  by (simp add: PrintFileList_def NewWriter_def csvWriteAll_invalid csvWrite_def Let_def)

lemma validDelim_pipe: "validDelim (of_char CHR ''|'')"
  by (simp add: validDelim_def ValidRune_def word_sle_eq word_sless_alt)

lemma tabbedLoop_rows:
  "tabbedLoop hp args h w files s =
     s(w := s w @ map (\<lambda>f. Tabbed (tabbedLine hp args (h f))) files)"
  by (induction files arbitrary: s) (simp_all add: tabWrite_def)

lemma PrintTabbedFileList_rows:
  "PrintTabbedFileList hp args h s =
     s(PrintFileListArgs.Out args := s (PrintFileListArgs.Out args)
        @ (if PrintFileListArgs.SkipHeader args then [] else [Tabbed tabbedHeader])
        @ map (\<lambda>f. Tabbed (tabbedLine hp args (h f))) (Files args))"
  by (simp add: PrintTabbedFileList_def tabbedLoop_rows tabWrite_def Let_def)


lemma scan_plain:
  "plain v \<Longrightarrow> foldl tabwriterStep (False, cell, line, lines) v = (False, cell @ v, line, lines)"
  by (induction v arbitrary: cell) (simp_all add: plain_def)

lemma scan_line:
  "vs \<noteq> [] \<Longrightarrow> list_all plain vs \<Longrightarrow>
     foldl tabwriterStep (False, [], line, lines) (Sprintf_line vs) =
       (False, [], [], lines @ [line @ vs])"
proof (induction vs arbitrary: line rule: Sprintf_line.induct)
  case 1
  then show ?case by simp
next
  case (2 v)
  then show ?case by (simp add: scan_plain)
next
  case (3 v v' vs)
  from "3.prems" have pv: "plain v" and rest: "list_all plain (v' # vs)" by simp_all
  have "foldl tabwriterStep (False, [], line, lines) (Sprintf_line (v # v' # vs)) =
          foldl tabwriterStep (False, [], line @ [v], lines) (Sprintf_line (v' # vs))"
    using pv by (simp add: scan_plain)
  also have "\<dots> = (False, [], [], lines @ [(line @ [v]) @ (v' # vs)])"
    using rest by (intro "3.IH") simp_all
  finally show ?case by simp
qed

lemma scan_lines:
  "\<forall>r\<in>set rows. r \<noteq> [] \<and> list_all plain r \<Longrightarrow>
     foldl tabwriterStep (False, [], [], lines) (concat (map Sprintf_line rows)) =
       (False, [], [], lines @ rows)"
proof (induction rows arbitrary: lines)
  case Nil
  then show ?case by simp
next
  case (Cons r rows)
  then have r: "r \<noteq> []" "list_all plain r" and rest: "\<forall>r\<in>set rows. r \<noteq> [] \<and> list_all plain r"
    by simp_all
  from scan_line [OF r, of "[]" lines] Cons.IH [OF rest, of "lines @ [r]"]
  show ?case by simp
qed

lemma tabwriterCells_lines:
  assumes "\<forall>r\<in>set rows. r \<noteq> [] \<and> list_all plain r"
  shows "tabwriterCells (concat (map Sprintf_line rows)) = rows"
  using scan_lines [OF assms, of "[]"] by (simp add: tabwriterCells_def)








section \<open>Where the output goes\<close>

lemma List_written:
  "written (snd (List self hp args wd)) = written wd
   \<or> (\<exists>files h. written (snd (List self hp args wd)) =
          (if UseCsv args then PrintFileList hp (List_printArgs args files) h (written wd)
           else PrintTabbedFileList hp (List_printArgs args files) h (written wd)))"
proof (cases "listAllFiles self (List_listArgs args)")
  case (Pair fs r)
  show ?thesis
  proof (cases r)
    case (Some e)
    with Pair have "List self hp args wd = (Some (Errorf ''Failed to list files: '' e), wd)"
      by (simp add: List_def)
    then show ?thesis by simp
  next
    case None
    obtain r' h where lp: "(if AbsPath args then absPathLoop self fs (files_heap wd)
        else (None, files_heap wd)) = (r', h)"
      by (cases "if AbsPath args then absPathLoop self fs (files_heap wd) else (None, files_heap wd)")
    show ?thesis
    proof (cases r')
      case (Some e)
      with Pair None lp have "List self hp args wd = (Some e, wd\<lparr>files_heap := h\<rparr>)"
        by (simp add: List_def)
      then show ?thesis by simp
    next
      case None': None
      with Pair None lp have "written (snd (List self hp args wd)) =
          (if UseCsv args then PrintFileList hp (List_printArgs args fs) h (written wd)
           else PrintTabbedFileList hp (List_printArgs args fs) h (written wd))"
        by (simp add: List_def Let_def)
      then show ?thesis by blast
    qed
  qed
qed

lemma List_csv_comma:
  assumes "CsvRecord c fs \<in> set (written (snd (List self hp args wd)) w)"
  shows "CsvRecord c fs \<in> set (written wd w) \<or> c = of_char CHR ''|''"
proof -
  have d: "Delimiter (List_printArgs args files) = of_char CHR ''|''" for files
    by (simp add: List_printArgs_def)
  from List_written [of self hp args wd] show ?thesis
  proof
    assume "written (snd (List self hp args wd)) = written wd"
    with assms show ?thesis by simp
  next
    assume "\<exists>files h. written (snd (List self hp args wd)) =
          (if UseCsv args then PrintFileList hp (List_printArgs args files) h (written wd)
           else PrintTabbedFileList hp (List_printArgs args files) h (written wd))"
    then obtain files h where wr: "written (snd (List self hp args wd)) =
          (if UseCsv args then PrintFileList hp (List_printArgs args files) h (written wd)
           else PrintTabbedFileList hp (List_printArgs args files) h (written wd))"
      by blast
    show ?thesis
    proof (cases "UseCsv args")
      case True
      from d [of files] validDelim_pipe have "validDelim (Delimiter (List_printArgs args files))"
        by simp
      from PrintFileList_rows [OF this] True wr assms d [of files] show ?thesis
        by (auto split: if_splits)
    next
      case False
      with wr assms show ?thesis
        by (auto simp: PrintTabbedFileList_rows split: if_splits)
    qed
  qed
qed

lemma demo_listing_2:
  "listAllFiles demoDrive (List_listArgs (demoArgs c r 2)) = ([1, 2], None)"
  by (simp add: listAllFiles_def listPages_def demoDrive_def List_listArgs_def demoArgs_def
      listAllFiles_func1_def word_sless_alt)

lemma demo_csv_run:
  "List demoDrive demoHelpers (demoArgs True False 2) demoWorld =
     (None, \<lparr>files_heap = demoHeap,
             written = (\<lambda>w. [])(Stdout :=
               [CsvRecord (of_char CHR ''|'') [''Id'', ''Name'', ''Type'', ''Size'', ''Created''],
                CsvRecord (of_char CHR ''|'') [''id-a'', ''a'', ''bin'', ''10'', ''2017-01-01''],
                CsvRecord (of_char CHR ''|'') [''id-b'', ''b'', ''bin'', ''10'', ''2017-01-01'']])\<rparr>)"
proof -
  have v: "validDelim (Delimiter (List_printArgs (demoArgs True False 2) [1, 2]))"
    using validDelim_pipe by (simp add: List_printArgs_def)
  have p: "PrintFileList demoHelpers (List_printArgs (demoArgs True False 2) [1, 2]) demoHeap (\<lambda>w. []) =
      (\<lambda>w. [])(Stdout :=
               [CsvRecord (of_char CHR ''|'') [''Id'', ''Name'', ''Type'', ''Size'', ''Created''],
                CsvRecord (of_char CHR ''|'') [''id-a'', ''a'', ''bin'', ''10'', ''2017-01-01''],
                CsvRecord (of_char CHR ''|'') [''id-b'', ''b'', ''bin'', ''10'', ''2017-01-01'']])"
    unfolding PrintFileList_rows [OF v]
    by (simp add: List_printArgs_def demoArgs_def csvHeaders_def csvRecord_def
        demoHelpers_def demoHeap_def demoFile_def filetype_def)
  have a: "\<not> AbsPath (demoArgs True False 2)" and u: "UseCsv (demoArgs True False 2)"
    by (simp_all add: demoArgs_def)
  show ?thesis
    unfolding List_def demo_listing_2 using a u p
    by (simp add: Let_def demoWorld_def)
qed

lemma demo_tabbed_run:
  "List demoDrive demoHelpers (demoArgs False False 2) demoWorld =
     (None, \<lparr>files_heap = demoHeap,
             written = (\<lambda>w. [])(Writer 0 :=
               [Tabbed (Sprintf_line [''Id'', ''Name'', ''Type'', ''Size'', ''Created'']),
                Tabbed (Sprintf_line [''id-a'', ''a'', ''bin'', ''10'', ''2017-01-01'']),
                Tabbed (Sprintf_line [''id-b'', ''b'', ''bin'', ''10'', ''2017-01-01''])])\<rparr>)"
proof -
  have p: "PrintTabbedFileList demoHelpers (List_printArgs (demoArgs False False 2) [1, 2]) demoHeap (\<lambda>w. []) =
      (\<lambda>w. [])(Writer 0 :=
               [Tabbed (Sprintf_line [''Id'', ''Name'', ''Type'', ''Size'', ''Created'']),
                Tabbed (Sprintf_line [''id-a'', ''a'', ''bin'', ''10'', ''2017-01-01'']),
                Tabbed (Sprintf_line [''id-b'', ''b'', ''bin'', ''10'', ''2017-01-01''])])"
    by (simp add: PrintTabbedFileList_rows List_printArgs_def demoArgs_def tabbedLine_def
        tabbedValues_def tabbedHeader_def demoHelpers_def demoHeap_def demoFile_def filetype_def)
  have a: "\<not> AbsPath (demoArgs False False 2)" and u: "\<not> UseCsv (demoArgs False False 2)"
    by (simp_all add: demoArgs_def)
  show ?thesis
    unfolding List_def demo_listing_2 using a u p
    by (simp add: Let_def demoWorld_def)
qed

lemma demo_tabbed_cells:
  "tabwriterCells (tabbedInput
     [Tabbed (Sprintf_line [''Id'', ''Name'', ''Type'', ''Size'', ''Created'']),
      Tabbed (Sprintf_line [''id-a'', ''a'', ''bin'', ''10'', ''2017-01-01'']),
      Tabbed (Sprintf_line [''id-b'', ''b'', ''bin'', ''10'', ''2017-01-01''])]) =
   [[''Id'', ''Name'', ''Type'', ''Size'', ''Created''],
    [''id-a'', ''a'', ''bin'', ''10'', ''2017-01-01''],
    [''id-b'', ''b'', ''bin'', ''10'', ''2017-01-01'']]"
proof -
  have "tabwriterCells (concat (map Sprintf_line
      [[''Id'', ''Name'', ''Type'', ''Size'', ''Created''],
       [''id-a'', ''a'', ''bin'', ''10'', ''2017-01-01''],
       [''id-b'', ''b'', ''bin'', ''10'', ''2017-01-01'']])) =
      [[''Id'', ''Name'', ''Type'', ''Size'', ''Created''],
       [''id-a'', ''a'', ''bin'', ''10'', ''2017-01-01''],
       [''id-b'', ''b'', ''bin'', ''10'', ''2017-01-01'']]"
    by (rule tabwriterCells_lines) (simp add: plain_def)
  then show ?thesis by simp
qed

text \<open>
  C7. \<open>List\<close> called for the delimited rendering with \<open>Out\<close> a writer other than
  \<open>os.Stdout\<close>: the call succeeds, \<open>Out\<close> has received nothing, and the header and the two
  records are on \<open>os.Stdout\<close>. The same call for the tabbed rendering prints its three
  lines, of five cells each, to \<open>Out\<close> and nothing to \<open>os.Stdout\<close>.
\<close>

theorem List_csv_bypasses_Out:
  "ListFilesArgs.Out (demoArgs True False 2) = Writer 0
   \<and> fst (List demoDrive demoHelpers (demoArgs True False 2) demoWorld) = None
   \<and> written (snd (List demoDrive demoHelpers (demoArgs True False 2) demoWorld)) (Writer 0) = []
   \<and> written (snd (List demoDrive demoHelpers (demoArgs True False 2) demoWorld)) Stdout =
       [CsvRecord (of_char CHR ''|'') [''Id'', ''Name'', ''Type'', ''Size'', ''Created''],
        CsvRecord (of_char CHR ''|'') [''id-a'', ''a'', ''bin'', ''10'', ''2017-01-01''],
        CsvRecord (of_char CHR ''|'') [''id-b'', ''b'', ''bin'', ''10'', ''2017-01-01'']]
   \<and> ListFilesArgs.Out (demoArgs False False 2) = Writer 0
   \<and> written (snd (List demoDrive demoHelpers (demoArgs False False 2) demoWorld)) Stdout = []
   \<and> written (snd (List demoDrive demoHelpers (demoArgs False False 2) demoWorld)) (Writer 0) =
       [Tabbed (Sprintf_line [''Id'', ''Name'', ''Type'', ''Size'', ''Created'']),
        Tabbed (Sprintf_line [''id-a'', ''a'', ''bin'', ''10'', ''2017-01-01'']),
        Tabbed (Sprintf_line [''id-b'', ''b'', ''bin'', ''10'', ''2017-01-01''])]
   \<and> tabwriterCells (tabbedInput
        (written (snd (List demoDrive demoHelpers (demoArgs False False 2) demoWorld)) (Writer 0))) =
       [[''Id'', ''Name'', ''Type'', ''Size'', ''Created''],
        [''id-a'', ''a'', ''bin'', ''10'', ''2017-01-01''],
        [''id-b'', ''b'', ''bin'', ''10'', ''2017-01-01'']]"
proof -
  have o: "ListFilesArgs.Out (demoArgs True False 2) = Writer 0"
    "ListFilesArgs.Out (demoArgs False False 2) = Writer 0"
    by (simp_all add: demoArgs_def)
  have c: "fst (List demoDrive demoHelpers (demoArgs True False 2) demoWorld) = None"
    "written (snd (List demoDrive demoHelpers (demoArgs True False 2) demoWorld)) (Writer 0) = []"
    "written (snd (List demoDrive demoHelpers (demoArgs True False 2) demoWorld)) Stdout =
       [CsvRecord (of_char CHR ''|'') [''Id'', ''Name'', ''Type'', ''Size'', ''Created''],
        CsvRecord (of_char CHR ''|'') [''id-a'', ''a'', ''bin'', ''10'', ''2017-01-01''],
        CsvRecord (of_char CHR ''|'') [''id-b'', ''b'', ''bin'', ''10'', ''2017-01-01'']]"
    by (simp_all add: demo_csv_run)
  have t: "written (snd (List demoDrive demoHelpers (demoArgs False False 2) demoWorld)) Stdout = []"
    "written (snd (List demoDrive demoHelpers (demoArgs False False 2) demoWorld)) (Writer 0) =
       [Tabbed (Sprintf_line [''Id'', ''Name'', ''Type'', ''Size'', ''Created'']),
        Tabbed (Sprintf_line [''id-a'', ''a'', ''bin'', ''10'', ''2017-01-01'']),
        Tabbed (Sprintf_line [''id-b'', ''b'', ''bin'', ''10'', ''2017-01-01''])]"
    unfolding demo_tabbed_run by simp_all
  have cells: "tabwriterCells (tabbedInput
        (written (snd (List demoDrive demoHelpers (demoArgs False False 2) demoWorld)) (Writer 0))) =
       [[''Id'', ''Name'', ''Type'', ''Size'', ''Created''],
        [''id-a'', ''a'', ''bin'', ''10'', ''2017-01-01''],
        [''id-b'', ''b'', ''bin'', ''10'', ''2017-01-01'']]"
    unfolding t(2) by (rule demo_tabbed_cells)
  from o c t cells show ?thesis by (intro conjI)
qed

text \<open>
  C8, as the claim is stated: no arguments of \<open>List\<close> make it write a record delimited by
  a semicolon; the delimited rendering of the small drive is delimited by \<open>|\<close>.
\<close>

theorem List_delimiter_counterexample:
  "CsvRecord (of_char CHR ''|'') [''Id'', ''Name'', ''Type'', ''Size'', ''Created'']
     \<in> set (written (snd (List demoDrive demoHelpers (demoArgs True False 2) demoWorld)) Stdout)
   \<and> \<not> (\<exists>args fs w. CsvRecord (of_char CHR '';'') fs
           \<in> set (written (snd (List demoDrive demoHelpers args demoWorld)) w))"
proof
  show "CsvRecord (of_char CHR ''|'') [''Id'', ''Name'', ''Type'', ''Size'', ''Created'']
     \<in> set (written (snd (List demoDrive demoHelpers (demoArgs True False 2) demoWorld)) Stdout)"
    by (simp add: demo_csv_run)
  show "\<not> (\<exists>args fs w. CsvRecord (of_char CHR '';'') fs
           \<in> set (written (snd (List demoDrive demoHelpers args demoWorld)) w))"
  proof
    assume "\<exists>args fs w. CsvRecord (of_char CHR '';'') fs
           \<in> set (written (snd (List demoDrive demoHelpers args demoWorld)) w)"
    then obtain args fs w where "CsvRecord (of_char CHR '';'') fs
           \<in> set (written (snd (List demoDrive demoHelpers args demoWorld)) w)"
      by blast
    from List_csv_comma [OF this]
    have "(of_char CHR '';'' :: rune) = of_char CHR ''|''"
      by (simp add: demoWorld_def)
    then show False by simp
  qed
qed

text \<open>
  C8, amended. \<open>PrintFileList\<close> writes every record with the delimiter that its arguments
  carry when that is a valid delimiter for the csv writer, and writes nothing when it is
  not. \<open>List\<close> has no argument for the delimiter and always passes \<open>|\<close>, which is valid:
  every delimited record that a sink holds after \<open>List\<close> was there before, or is
  delimited by \<open>|\<close>.
\<close>

theorem List_delimiter_fixed:
  "(validDelim (Delimiter pargs) \<longrightarrow>
      PrintFileList hp pargs h s Stdout =
        s Stdout @ map (CsvRecord (Delimiter pargs))
          ((if PrintFileListArgs.SkipHeader pargs then [] else [csvHeaders pargs])
           @ map (\<lambda>f. csvRecord hp pargs (h f)) (Files pargs)))
   \<and> (\<not> validDelim (Delimiter pargs) \<longrightarrow> PrintFileList hp pargs h s = s)
   \<and> Delimiter (List_printArgs args files) = of_char CHR ''|''
   \<and> validDelim (of_char CHR ''|'')
   \<and> (\<forall>c fs w. CsvRecord c fs \<in> set (written (snd (List self hp args wd)) w) \<longrightarrow>
          CsvRecord c fs \<in> set (written wd w) \<or> c = of_char CHR ''|'')"
proof (intro conjI allI impI)
  show "PrintFileList hp pargs h s Stdout =
     s Stdout @ map (CsvRecord (Delimiter pargs))
       ((if PrintFileListArgs.SkipHeader pargs then [] else [csvHeaders pargs])
        @ map (\<lambda>f. csvRecord hp pargs (h f)) (Files pargs))"
    if "validDelim (Delimiter pargs)"
    using that by (simp add: PrintFileList_rows comp_def)
  show "PrintFileList hp pargs h s = s" if "\<not> validDelim (Delimiter pargs)"
    using that by (rule PrintFileList_invalid)
  show "Delimiter (List_printArgs args files) = of_char CHR ''|''"
    by (simp add: List_printArgs_def)
  show "validDelim (of_char CHR ''|'')"
    by (rule validDelim_pipe)
  show "CsvRecord c fs \<in> set (written wd w) \<or> c = of_char CHR ''|''"
    if "CsvRecord c fs \<in> set (written (snd (List self hp args wd)) w)" for c fs w
    using that by (rule List_csv_comma)
qed

theorem List_delimiter_fixed_witness:
  "CsvRecord 124 [''Id'', ''Name'', ''Type'', ''Size'', ''Created'']
     \<in> set (written (snd (List demoDrive demoHelpers (demoArgs True False 2) demoWorld)) Stdout)
   \<and> CsvRecord 124 [''Id'', ''Name'', ''Type'', ''Size'', ''Created'']
       \<notin> set (written demoWorld Stdout)
   \<and> (124 :: rune) = of_char CHR ''|''
   \<and> validDelim (Delimiter (demoPrintArgs (of_char CHR '';'') False))
   \<and> PrintFileList demoHelpers (demoPrintArgs (of_char CHR '';'') False) demoHeap (\<lambda>w. []) Stdout =
       [CsvRecord (of_char CHR '';'') [''Id'', ''Name'', ''Type'', ''Size'', ''Created''],
        CsvRecord (of_char CHR '';'') [''id-a'', ''a'', ''bin'', ''10'', ''2017-01-01''],
        CsvRecord (of_char CHR '';'') [''id-b'', ''b'', ''bin'', ''10'', ''2017-01-01'']]
   \<and> \<not> validDelim (Delimiter (demoPrintArgs (of_char CHR 0x0A) False))
   \<and> PrintFileList demoHelpers (demoPrintArgs (of_char CHR 0x0A) False) demoHeap (\<lambda>w. []) =
       (\<lambda>w. [])"
proof -
  have a: "CsvRecord 124 [''Id'', ''Name'', ''Type'', ''Size'', ''Created'']
     \<in> set (written (snd (List demoDrive demoHelpers (demoArgs True False 2) demoWorld)) Stdout)"
    by (simp add: demo_csv_run)
  have b: "CsvRecord 124 [''Id'', ''Name'', ''Type'', ''Size'', ''Created'']
       \<notin> set (written demoWorld Stdout)"
    by (simp add: demoWorld_def)
  from List_delimiter_fixed [of "List_printArgs (demoArgs True False 2) [1, 2]" demoHelpers
      demoHeap "\<lambda>w. []" "demoArgs True False 2" "[1, 2]" demoDrive demoWorld] a b
  have c: "(124 :: rune) = of_char CHR ''|''" by blast
  let ?semi = "demoPrintArgs (of_char CHR '';'') False"
  have v: "validDelim (Delimiter ?semi)"
    by (simp add: demoPrintArgs_def validDelim_def ValidRune_def word_sle_eq word_sless_alt)
  have fs: "Files ?semi = [1, 2]" and sk: "\<not> PrintFileListArgs.SkipHeader ?semi"
    and d: "Delimiter ?semi = of_char CHR '';''"
    by (simp_all add: demoPrintArgs_def)
  have hd: "csvHeaders ?semi = [''Id'', ''Name'', ''Type'', ''Size'', ''Created'']"
    by (simp add: csvHeaders_def demoPrintArgs_def)
  have rec: "csvRecord demoHelpers ?semi (demoHeap 1) = [''id-a'', ''a'', ''bin'', ''10'', ''2017-01-01'']"
    "csvRecord demoHelpers ?semi (demoHeap 2) = [''id-b'', ''b'', ''bin'', ''10'', ''2017-01-01'']"
    by (simp_all add: csvRecord_def demoPrintArgs_def demoHelpers_def demoHeap_def demoFile_def
        filetype_def)
  from List_delimiter_fixed [of ?semi demoHelpers demoHeap "\<lambda>w. []"] v
  have "PrintFileList demoHelpers ?semi demoHeap (\<lambda>w. []) Stdout =
        (\<lambda>w. []) Stdout @ map (CsvRecord (Delimiter ?semi))
          ((if PrintFileListArgs.SkipHeader ?semi then [] else [csvHeaders ?semi])
           @ map (\<lambda>f. csvRecord demoHelpers ?semi (demoHeap f)) (Files ?semi))"
    by blast
  then have e: "PrintFileList demoHelpers ?semi demoHeap (\<lambda>w. []) Stdout =
       [CsvRecord (of_char CHR '';'') [''Id'', ''Name'', ''Type'', ''Size'', ''Created''],
        CsvRecord (of_char CHR '';'') [''id-a'', ''a'', ''bin'', ''10'', ''2017-01-01''],
        CsvRecord (of_char CHR '';'') [''id-b'', ''b'', ''bin'', ''10'', ''2017-01-01'']]"
    by (simp only: fs sk d hd list.map rec) simp
  let ?lf = "demoPrintArgs (of_char CHR 0x0A) False"
  have nv: "\<not> validDelim (Delimiter ?lf)"
    by (simp add: demoPrintArgs_def validDelim_def)
  from List_delimiter_fixed [of ?lf demoHelpers demoHeap "\<lambda>w. []"] nv
  have f: "PrintFileList demoHelpers ?lf demoHeap (\<lambda>w. []) = (\<lambda>w. [])"
    by blast
  from a b c v e nv f show ?thesis by (intro conjI)
qed

end
